theory Spec2Isabelle
  imports Main "HOL-Library.Word"
begin

unbundle bit_operations_syntax

section \<open>Bytes, hashes and little-endian integers\<close>

text \<open>
  A Go \<open>byte\<close> is an 8-bit word, \<open>int64\<close> and \<open>uint64\<close> are 64-bit words (read
  signed with \<open>sint\<close>). The bytes of a payload or of a buffer are a list of bytes.
  \<open>types.Hash\<close> is the array type \<open>[HashLen]byte\<close>: a byte list whose length is \<open>HashLen\<close>,
  a fact the Go type carries and the model states as \<open>wf_hash\<close>.

  A field of type \<open>[]byte\<close> whose value is compared is a \<open>byte_slice\<close>: the nil slice, or a
  slice with its bytes. The two slices without bytes, nil and \<open>make([]byte, 0)\<close>, have the
  same length and the same bytes, and are different values for \<open>reflect.DeepEqual\<close>, the
  equality of \<open>require.Equal\<close> on structs.
\<close>

type_synonym byte = "8 word"
type_synonym hash = "byte list"

datatype byte_slice = NilSlice | Slice "byte list"

text \<open>\<open>len(s)\<close> and the bytes that \<open>copy\<close> and \<open>s[:]\<close> see.\<close>

fun len :: "byte_slice \<Rightarrow> nat" where
  "len NilSlice = 0"
| "len (Slice bs) = length bs"

fun bytes_of :: "byte_slice \<Rightarrow> byte list" where
  "bytes_of NilSlice = []"
| "bytes_of (Slice bs) = bs"

definition HashLen :: nat where
  "HashLen = 32"

definition wf_hash :: "hash \<Rightarrow> bool" where
  "wf_hash h = (length h = HashLen)"

text \<open>The zero value \<open>Hash{}\<close>.\<close>

definition zero_hash :: hash where
  "zero_hash = replicate HashLen 0"

text \<open>
  \<open>binary.LittleEndian.PutUint64\<close> stores \<open>byte(v)\<close>, \<open>byte(v >> 8)\<close>, ... and
  \<open>binary.LittleEndian.Uint64\<close> reads \<open>uint64(b[0]) | uint64(b[1])<<8 | ...\<close>.
\<close>

fun le_bytes :: "nat \<Rightarrow> 64 word \<Rightarrow> byte list" where
  "le_bytes 0 v = []"
| "le_bytes (Suc n) v = ucast v # le_bytes n (drop_bit 8 v)"

fun le_word :: "byte list \<Rightarrow> 64 word" where
  "le_word [] = 0"
| "le_word (b # bs) = ucast b OR push_bit 8 (le_word bs)"

definition PutUint64 :: "64 word \<Rightarrow> byte list" where
  "PutUint64 v = le_bytes 8 v"

definition Uint64 :: "byte list \<Rightarrow> 64 word" where
  "Uint64 bs = le_word (take 8 bs)"

text \<open>
  \<open>copy(buf[c:], src)\<close>: overwrites \<open>buf\<close> from offset \<open>c\<close> with as many bytes of \<open>src\<close> as
  fit, and leaves the rest of \<open>buf\<close> as it was.
\<close>

definition copy_at :: "byte list \<Rightarrow> nat \<Rightarrow> byte list \<Rightarrow> byte list" where
  "copy_at buf c src = take c buf @ take (length buf - c) src @ drop (c + length src) buf"

section \<open>Readers\<close>

text \<open>
  An \<open>io.Reader\<close> is the bytes it still delivers and the error it reports once they are
  used up: \<open>EOF\<close> for a stream closed by the peer and for \<open>bytes.NewReader\<close>, \<open>ErrTransport\<close>
  for a reset or a deadline.
\<close>

datatype error = EOF | ErrUnexpectedEOF | ErrTransport | ErrInvalidSignatureLength

record reader =
  pending :: "byte list"
  ending :: error

definition NewReader :: "byte list \<Rightarrow> reader" where
  "NewReader data = \<lparr>pending = data, ending = EOF\<rparr>"

text \<open>
  \<open>io.ReadFull(r, buf)\<close> with \<open>len(buf) = k\<close>: the bytes read, the error, and the reader
  afterwards. A request for no bytes returns at once; a short read reports \<open>EOF\<close> when
  nothing was read, \<open>ErrUnexpectedEOF\<close> when the stream ended part-way, and the reader's own
  error otherwise.
\<close>

definition ReadFull :: "reader \<Rightarrow> nat \<Rightarrow> byte list \<times> error option \<times> reader" where
  "ReadFull r k =
     (if k \<le> length (pending r)
      then (take k (pending r), None, r\<lparr>pending := drop k (pending r)\<rparr>)
      else (pending r,
            Some (if pending r = [] then ending r
                  else if ending r = EOF then ErrUnexpectedEOF else ending r),
            r\<lparr>pending := []\<rparr>))"

text \<open>
  \<open>binary.Read(r, binary.LittleEndian, &x)\<close> for an \<open>int64\<close>: reads eight bytes with
  \<open>io.ReadFull\<close> and leaves \<open>x\<close> alone when that fails.
\<close>

definition binary_Read :: "reader \<Rightarrow> (error + 64 word) \<times> reader" where
  "binary_Read r =
     (case ReadFull r 8 of
        (bs, Some e, r') \<Rightarrow> (Inl e, r')
      | (bs, None, r') \<Rightarrow> (Inr (Uint64 bs), r'))"

text \<open>\<open>io.ReadAll\<close>: everything up to \<open>EOF\<close>, or the error that ended the stream.\<close>

definition ReadAll :: "reader \<Rightarrow> (error + byte list) \<times> reader" where
  "ReadAll r =
     (if ending r = EOF then (Inr (pending r), r\<lparr>pending := []\<rparr>)
      else (Inl (ending r), r\<lparr>pending := []\<rparr>))"

section \<open>Block proposal announcements\<close>

record blockProp =
  Height :: "64 word"
  Hash :: hash
  PrevHash :: hash
  Stamp :: "64 word"
  LeaderSig :: byte_slice

definition wf_blockProp :: "blockProp \<Rightarrow> bool" where
  "wf_blockProp bp = (wf_hash (Hash bp) \<and> wf_hash (PrevHash bp))"

text \<open>
  \<open>blockProp.MarshalBinary\<close>: a zeroed buffer of \<open>8 + 2 * HashLen + 8 + 8 + len(LeaderSig)\<close>
  bytes, filled field by field at the running offset \<open>c\<close>. Its error result is always nil.
\<close>

definition MarshalBinary :: "blockProp \<Rightarrow> byte list" where
  "MarshalBinary bp =
     (let buf = replicate (8 + 2 * HashLen + 8 + 8 + len (LeaderSig bp)) 0;
          c = 0;
          buf = copy_at buf c (PutUint64 (Height bp));
          c = c + 8;
          buf = copy_at buf c (Hash bp);
          c = c + HashLen;
          buf = copy_at buf c (PrevHash bp);
          c = c + HashLen;
          buf = copy_at buf c (PutUint64 (Stamp bp));
          c = c + 8;
          buf = copy_at buf c (PutUint64 (of_nat (len (LeaderSig bp))));
          c = c + 8;
          buf = copy_at buf c (bytes_of (LeaderSig bp))
      in buf)"

text \<open>
  \<open>blockProp.ReadFrom\<close> fills the receiver in place, so the model takes the receiver
  before the call and returns it after, with the reader and what the call did: it returned
  a byte count and an error (nil is \<open>None\<close>), or it panicked. \<open>make([]byte, sigLen)\<close>
  panics for a negative length and returns a slice that is not nil otherwise, also for
  length 0. A short read of a hash or of the signature leaves the bytes read so far in the
  field.
\<close>

datatype outcome = Returned int "error option" | Panicked

definition ReadFrom :: "blockProp \<Rightarrow> reader \<Rightarrow> blockProp \<times> reader \<times> outcome" where
  "ReadFrom bp r =
     (case binary_Read r of
        (Inl e, r) \<Rightarrow> (bp, r, Returned 0 (Some e))
      | (Inr h, r) \<Rightarrow>
     let bp = bp\<lparr>Height := h\<rparr>; n = 8 in
     (case ReadFull r HashLen of (got, err, r) \<Rightarrow>
     let bp = bp\<lparr>Hash := copy_at (Hash bp) 0 got\<rparr>; nr = int (length got) in
     (case err of Some e \<Rightarrow> (bp, r, Returned nr (Some e)) | None \<Rightarrow>
     let n = n + nr in
     (case ReadFull r HashLen of (got, err, r) \<Rightarrow>
     let bp = bp\<lparr>PrevHash := copy_at (PrevHash bp) 0 got\<rparr>; nr = int (length got) in
     (case err of Some e \<Rightarrow> (bp, r, Returned nr (Some e)) | None \<Rightarrow>
     let n = n + nr in
     (case binary_Read r of
        (Inl e, r) \<Rightarrow> (bp, r, Returned n (Some e))
      | (Inr s, r) \<Rightarrow>
     let bp = bp\<lparr>Stamp := s\<rparr>; n = n + 8 in
     (case binary_Read r of
        (Inl e, r) \<Rightarrow> (bp, r, Returned n (Some e))
      | (Inr sigLen, r) \<Rightarrow>
     let n = n + 8 in
     if sint sigLen > 1000 then (bp, r, Returned n (Some ErrInvalidSignatureLength))
     else if sint sigLen < 0 then (bp, r, Panicked)
     else
     let bp = bp\<lparr>LeaderSig := Slice (replicate (nat (sint sigLen)) 0)\<rparr> in
     (case ReadFull r (nat (sint sigLen)) of (got, err, r) \<Rightarrow>
     let bp = bp\<lparr>LeaderSig := Slice (copy_at (bytes_of (LeaderSig bp)) 0 got)\<rparr>;
         nr = int (length got) in
     (case err of Some e \<Rightarrow> (bp, r, Returned nr (Some e)) | None \<Rightarrow>
     let n = n + nr in
     (bp, r, Returned n None))))))))))"

text \<open>
  \<open>blockProp.UnmarshalBinary\<close> runs \<open>ReadFrom\<close> on \<open>bytes.NewReader(data)\<close> and keeps the
  error; a panic of \<open>ReadFrom\<close> goes through to the caller.
\<close>

datatype unmarshaled = Done "error option" | Aborted

definition UnmarshalBinary :: "blockProp \<Rightarrow> byte list \<Rightarrow> blockProp \<times> unmarshaled" where
  "UnmarshalBinary bp data =
     (case ReadFrom bp (NewReader data) of
        (bp', r, Returned n err) \<Rightarrow> (bp', Done err)
      | (bp', r, Panicked) \<Rightarrow> (bp', Aborted))"

text \<open>The zero value of \<open>var prop blockProp\<close>.\<close>

definition zero_blockProp :: blockProp where
  "zero_blockProp =
     \<lparr>Height = 0, Hash = zero_hash, PrevHash = zero_hash, Stamp = 0, LeaderSig = NilSlice\<rparr>"

section \<open>The consensus engine and the block proposal stream\<close>

text \<open>
  The consensus engine is an interface: the handlers ask it for its role and whether it
  accepts a proposal, and notify it. What it answers is taken as given.
\<close>

datatype Role = RoleLeader | RoleValidator | RoleSentry

record ConsensusEngine =
  Role :: Role
  AcceptProposal :: "64 word \<Rightarrow> hash \<Rightarrow> hash \<Rightarrow> byte_slice \<Rightarrow> 64 word \<Rightarrow> bool"

text \<open>
  A \<open>network.Stream\<close> as the handler sees it: the bytes the peer delivers, and the error
  (or nil) that \<open>Write\<close> returns.
\<close>

record stream =
  inbound :: reader
  write_err :: "error option"

text \<open>
  \<open>ktypes.DecodeBlock\<close> and the block type with \<open>Header.Height\<close> and \<open>Header.Hash()\<close>
  belong to package \<open>core/types\<close>, and the constant \<open>getMsg\<close> is declared elsewhere in
  package \<open>node\<close>: they are parameters of the handler.
\<close>

record 'blk ktypes =
  getMsg :: "byte list"
  DecodeBlock :: "byte list \<Rightarrow> 'blk option"
  Header_Height :: "'blk \<Rightarrow> 64 word"
  Header_Hash :: "'blk \<Rightarrow> hash"

text \<open>
  What \<open>blkPropStreamHandler\<close> does, in order: the question put to the consensus engine
  with its answer, the write to the stream with its result, the notification, the deferred
  \<open>s.Close()\<close>. A panic in \<open>ReadFrom\<close> runs the deferred close and goes on up.
\<close>

datatype 'blk stream_event =
    CE_AcceptProposal "64 word" hash hash byte_slice "64 word" bool
  | Stream_Write "byte list" "error option"
  | CE_NotifyBlockProposal 'blk
  | Stream_Close
  | Panic

definition blkPropStreamHandler ::
  "'blk ktypes \<Rightarrow> ConsensusEngine \<Rightarrow> stream \<Rightarrow> 'blk stream_event list" where
  "blkPropStreamHandler kt ce s =
     (case ReadFrom zero_blockProp (inbound s) of
        (prop, r, Panicked) \<Rightarrow> [Panic, Stream_Close]
      | (prop, r, Returned n (Some err)) \<Rightarrow> [Stream_Close]
      | (prop, r, Returned n None) \<Rightarrow>
     let height = Height prop;
         accepted = AcceptProposal ce height (Hash prop) (PrevHash prop) (LeaderSig prop)
                      (Stamp prop)
     in CE_AcceptProposal height (Hash prop) (PrevHash prop) (LeaderSig prop) (Stamp prop)
          accepted #
     (if \<not> accepted then [Stream_Close]
      else Stream_Write (getMsg kt) (write_err s) #
     (case write_err s of Some err \<Rightarrow> [Stream_Close] | None \<Rightarrow>
     (case ReadAll r of
        (Inl err, r) \<Rightarrow> [Stream_Close]
      | (Inr blkProp, r) \<Rightarrow>
     (case DecodeBlock kt blkProp of None \<Rightarrow> [Stream_Close] | Some blk \<Rightarrow>
      if Header_Height kt blk \<noteq> height then [Stream_Close]
      else
     let annHash = Hash prop; hash = Header_Hash kt blk in
      if hash \<noteq> annHash then [Stream_Close]
      else [CE_NotifyBlockProposal blk, Stream_Close])))))"

section \<open>Gossip on the pub/sub topics\<close>

type_synonym peer_ID = "byte list"

datatype Topic = TopicACKs | TopicDiscReq | TopicDiscResp | TopicReset

record Message =
  From :: peer_ID
  Data :: "byte list"

record DiscRes =
  BestHeight :: "64 word"

record ConsensusReset =
  ToHeight :: "64 word"
  TxIDs :: "hash list"

text \<open>
  \<open>types.AckRes\<close> with its codec, the codecs of \<open>DiscoveryResponse\<close> and
  \<open>ConsensusReset\<close>, and \<open>peers.PubKeyFromPeerID\<close> followed by \<open>Bytes()\<close> belong to
  packages \<open>node/types\<close> and \<open>node/peers\<close>: the type of an ack is a type variable and the
  functions are parameters. A decoder that returns an error is \<open>None\<close>.
\<close>

record 'ack types =
  AckRes_MarshalBinary :: "'ack \<Rightarrow> byte list"
  AckRes_UnmarshalBinary :: "byte list \<Rightarrow> 'ack option"
  DiscRes_MarshalBinary :: "DiscRes \<Rightarrow> byte list"
  DiscRes_UnmarshalBinary :: "byte list \<Rightarrow> DiscRes option"
  ConsensusReset_Bytes :: "ConsensusReset \<Rightarrow> byte list"
  ConsensusReset_UnmarshalBinary :: "byte list \<Rightarrow> ConsensusReset option"
  PubKeyFromPeerID :: "peer_ID \<Rightarrow> byte list option"

text \<open>
  The node as a handler finds it when a message arrives: its host id, its consensus
  engine, and what \<open>bki.Best()\<close> returns.
\<close>

record Node =
  host_ID :: peer_ID
  ce :: ConsensusEngine
  bki_Best :: "64 word \<times> hash \<times> hash"

text \<open>
  What a gossip task does: \<open>Call\<close> is a call into the consensus engine made by the task
  itself, which waits for it to return; \<open>Go\<close> is the same call under a \<open>go\<close> statement, in a
  task of its own. \<open>Publish\<close> carries the result the topic returned. \<open>Topic_Close\<close> and
  \<open>Sub_Cancel\<close> are the deferred calls that end a publish task and a receive task.
\<close>

datatype 'ack notification =
    NotifyACK "byte list" 'ack
  | NotifyDiscoveryMessage "byte list" "64 word"
  | NotifyResetState "64 word" "hash list" "byte list"

datatype 'ack action =
    Publish Topic "byte list" "error option"
  | Call "'ack notification"
  | Go "'ack notification"
  | Send_discResp DiscRes
  | Topic_Close Topic
  | Sub_Cancel Topic

text \<open>
  One turn of the publish task's \<open>select\<close>: the context is done, or a value comes out of
  the channel, with the result that publishing it is going to have.
\<close>

datatype 'a turn = Ctx_Done | From_chan 'a "error option"

text \<open>The publish task of \<open>startAckGossip\<close>. With no turn left it waits in \<open>select\<close>.\<close>

fun ackPublishTask :: "'ack types \<Rightarrow> 'ack turn list \<Rightarrow> 'ack action list" where
  "ackPublishTask T [] = []"
| "ackPublishTask T (Ctx_Done # turns) = [Topic_Close TopicACKs]"
| "ackPublishTask T (From_chan ack err # turns) =
     (let ackMsg = AckRes_MarshalBinary T ack in
      Publish TopicACKs ackMsg err #
      (case err of Some e \<Rightarrow> [Topic_Close TopicACKs] | None \<Rightarrow> ackPublishTask T turns))"

text \<open>
  One result of \<open>Subscription.Next\<close>: an error, which ends the receive task, or a message,
  paired with the node as it is when the message is handled.
\<close>

datatype next_result = Next_err | Next_msg Node Message

text \<open>The body of the receive loop of \<open>startAckGossip\<close> for one message.\<close>

definition ackRecvMsg :: "'ack types \<Rightarrow> peer_ID \<Rightarrow> Node \<Rightarrow> Message \<Rightarrow> 'ack action list" where
  "ackRecvMsg T me n ackMsg =
     (if Role (ce n) \<noteq> RoleLeader then []
      else if From ackMsg = me then []
      else (case AckRes_UnmarshalBinary T (Data ackMsg) of None \<Rightarrow> [] | Some ack \<Rightarrow>
     let fromPeerID = From ackMsg in
     (case PubKeyFromPeerID T fromPeerID of None \<Rightarrow> [] | Some pubkeyBytes \<Rightarrow>
      [Go (NotifyACK pubkeyBytes ack)])))"

fun ackRecvTask :: "'ack types \<Rightarrow> peer_ID \<Rightarrow> next_result list \<Rightarrow> 'ack action list" where
  "ackRecvTask T me [] = []"
| "ackRecvTask T me (Next_err # nexts) = [Sub_Cancel TopicACKs]"
| "ackRecvTask T me (Next_msg n ackMsg # nexts) = ackRecvMsg T me n ackMsg @ ackRecvTask T me nexts"

text \<open>\<open>sendDiscoveryResponse\<close> puts the response on the channel \<open>discResp\<close>.\<close>

definition sendDiscoveryResponse :: "64 word \<Rightarrow> 'ack action list" where
  "sendDiscoveryResponse bestHeight = [Send_discResp \<lparr>BestHeight = bestHeight\<rparr>]"

text \<open>The body of the receive loop of \<open>startDiscoveryRequestGossip\<close>.\<close>

definition discReqRecvMsg :: "peer_ID \<Rightarrow> Node \<Rightarrow> Message \<Rightarrow> 'ack action list" where
  "discReqRecvMsg me n discMsg =
     (if From discMsg = me then []
      else (case bki_Best n of (bestHeight, _, _) \<Rightarrow> sendDiscoveryResponse bestHeight))"

fun discReqRecvTask :: "peer_ID \<Rightarrow> next_result list \<Rightarrow> 'ack action list" where
  "discReqRecvTask me [] = []"
| "discReqRecvTask me (Next_err # nexts) = [Sub_Cancel TopicDiscReq]"
| "discReqRecvTask me (Next_msg n discMsg # nexts) =
     discReqRecvMsg me n discMsg @ discReqRecvTask me nexts"

text \<open>The body of the receive loop of \<open>startDiscoveryResponseGossip\<close>.\<close>

definition discRespRecvMsg :: "'ack types \<Rightarrow> peer_ID \<Rightarrow> Node \<Rightarrow> Message \<Rightarrow> 'ack action list" where
  "discRespRecvMsg T me n discMsg =
     (if Role (ce n) \<noteq> RoleLeader then []
      else if From discMsg = me then []
      else (case DiscRes_UnmarshalBinary T (Data discMsg) of None \<Rightarrow> [] | Some dm \<Rightarrow>
     let fromPeerID = From discMsg in
     (case PubKeyFromPeerID T fromPeerID of None \<Rightarrow> [] | Some pubkeyBytes \<Rightarrow>
      [Go (NotifyDiscoveryMessage pubkeyBytes (BestHeight dm))])))"

text \<open>The body of the receive loop of \<open>startConsensusResetGossip\<close>.\<close>

definition resetRecvMsg :: "'ack types \<Rightarrow> peer_ID \<Rightarrow> Node \<Rightarrow> Message \<Rightarrow> 'ack action list" where
  "resetRecvMsg T me n resetMsg =
     (if From resetMsg = me then []
      else (case ConsensusReset_UnmarshalBinary T (Data resetMsg) of None \<Rightarrow> [] | Some reset \<Rightarrow>
     let fromPeerID = From resetMsg in
     (case PubKeyFromPeerID T fromPeerID of None \<Rightarrow> [] | Some pubkeyBytes \<Rightarrow>
      [Call (NotifyResetState (ToHeight reset) (TxIDs reset) pubkeyBytes)])))"

fun resetRecvTask :: "'ack types \<Rightarrow> peer_ID \<Rightarrow> next_result list \<Rightarrow> 'ack action list" where
  "resetRecvTask T me [] = []"
| "resetRecvTask T me (Next_err # nexts) = [Sub_Cancel TopicReset]"
| "resetRecvTask T me (Next_msg n resetMsg # nexts) =
     resetRecvMsg T me n resetMsg @ resetRecvTask T me nexts"

section \<open>Merkle root\<close>

text \<open>
  Modelled from the spec: \<open>CalcMerkleRoot\<close> and \<open>HashBytes\<close> are missing; the tests
  \<open>TestCalcMerkleRoot\<close> and \<open>TestCalcMerkleRoot_Extended\<close> call them, and their bodies are
  not in the sources. The definition follows section 4.2 of the specification: no leaf gives
  the zero hash, one leaf gives the leaf, and otherwise adjacent leaves are paired, the
  last one with itself when the level has an odd count, each pair is concatenated and
  hashed, and the same is done to the level so obtained. The hash function is a parameter.
\<close>

fun pair_level :: "(byte list \<Rightarrow> hash) \<Rightarrow> hash list \<Rightarrow> hash list" where
  "pair_level HashBytes [] = []"
| "pair_level HashBytes [x] = [HashBytes (x @ x)]"
| "pair_level HashBytes (x # y # xs) = HashBytes (x @ y) # pair_level HashBytes xs"

lemma length_pair_level: "length (pair_level HashBytes xs) = (length xs + 1) div 2"
  by (induction HashBytes xs rule: pair_level.induct) simp_all

text \<open>
  Modelled from the spec: \<open>CalcMerkleRoot\<close>, missing as said above. It repeats \<open>pair_level\<close>
  until one node remains; each level is shorter than the one before, so it ends.
\<close>

function CalcMerkleRoot :: "(byte list \<Rightarrow> hash) \<Rightarrow> hash list \<Rightarrow> hash" where
  "CalcMerkleRoot HashBytes [] = zero_hash"
| "CalcMerkleRoot HashBytes [x] = x"
| "CalcMerkleRoot HashBytes (x # y # xs) =
     CalcMerkleRoot HashBytes (pair_level HashBytes (x # y # xs))"
  by pat_completeness auto
termination
  by (relation "measure (\<lambda>(HashBytes, leaves). length leaves)")
     (simp_all add: length_pair_level)

section \<open>Votes\<close>

text \<open>
  Modelled from the spec: \<open>SignVote\<close>, \<open>VoteInfo.Verify\<close>, the vote digest and the signer
  are missing; the test \<open>TestSignAndVerifyVote\<close> calls them, and their bodies are not in the
  sources. The definitions follow section 4.2 of the specification. The canonical byte
  string of a vote and the signature scheme are parameters; a private key that is nil is
  \<open>None\<close>, and \<open>SignVote\<close> refuses it, as the case "SignVote with nil key" of the test
  requires.
\<close>

datatype KeyType = S1 | S2

datatype AckStatus = AckStatusAgree | AckStatusDisagree | AckStatusDiverge

record Signature =
  Data_sig :: "byte list"
  PubKey :: "byte list"
  PubKeyType :: KeyType

record VoteInfo =
  Signature :: Signature
  AckStatus :: AckStatus
  AppHash :: "hash option"

record 'key crypto =
  VoteBytes :: "hash \<Rightarrow> bool \<Rightarrow> hash option \<Rightarrow> byte list"
  Sign :: "'key \<Rightarrow> byte list \<Rightarrow> byte list"
  Public :: "'key \<Rightarrow> byte list"
  Type :: "'key \<Rightarrow> KeyType"
  VerifySignature :: "KeyType \<Rightarrow> byte list \<Rightarrow> byte list \<Rightarrow> byte list \<Rightarrow> bool"

datatype vote_error = ErrNilKey | ErrAppHashRequired | ErrInvalidSignature

text \<open>
  Modelled from the spec: the vote digest over \<open>(BlockID, Ack, AppHash?)\<close>; a positive
  vote without an app hash is an error.
\<close>

definition VoteDigest ::
  "'key crypto \<Rightarrow> hash \<Rightarrow> bool \<Rightarrow> hash option \<Rightarrow> vote_error + byte list" where
  "VoteDigest C blkID ack appHash =
     (if ack \<and> appHash = None then Inl ErrAppHashRequired
      else Inr (VoteBytes C blkID ack appHash))"

text \<open>
  Modelled from the spec: \<open>SignVote\<close> signs the vote digest with the private key and
  returns the signature with the signer's public key and key type.
\<close>

definition SignVote ::
  "'key crypto \<Rightarrow> hash \<Rightarrow> bool \<Rightarrow> hash option \<Rightarrow> 'key option \<Rightarrow> vote_error + Signature" where
  "SignVote C blkID ack appHash privKey =
     (case privKey of None \<Rightarrow> Inl ErrNilKey | Some k \<Rightarrow>
     (case VoteDigest C blkID ack appHash of Inl e \<Rightarrow> Inl e | Inr msg \<Rightarrow>
      Inr \<lparr>Data_sig = Sign C k msg, PubKey = Public C k, PubKeyType = Type C k\<rparr>))"

text \<open>
  Modelled from the spec: \<open>VoteInfo.Verify\<close> rebuilds the digest from the vote's status
  and checks the signature under the public key the vote carries. The result is the error,
  \<open>None\<close> for nil.
\<close>

definition Verify :: "'key crypto \<Rightarrow> VoteInfo \<Rightarrow> hash \<Rightarrow> hash \<Rightarrow> vote_error option" where
  "Verify C vote blkID appHash =
     (case (case AckStatus vote of
              AckStatusAgree \<Rightarrow> VoteDigest C blkID True (Some appHash)
            | AckStatusDisagree \<Rightarrow> VoteDigest C blkID False None
            | AckStatusDiverge \<Rightarrow>
                (case AppHash vote of None \<Rightarrow> Inl ErrAppHashRequired
                 | Some h \<Rightarrow> VoteDigest C blkID False (Some h))) of
        Inl e \<Rightarrow> Some e
      | Inr msg \<Rightarrow>
          if VerifySignature C (PubKeyType (Signature vote)) (PubKey (Signature vote)) msg
               (Data_sig (Signature vote))
          then None else Some ErrInvalidSignature)"

section \<open>Sample collaborators\<close>

text \<open>
  Concrete collaborators on which the theorems below are run: a block is its raw bytes,
  with the height in the first eight bytes and the hash in the next 32; an ack is its raw
  bytes; a peer id is its own public key; a signature is the key followed by the message.
\<close>

definition sample_ktypes :: "byte list ktypes" where
  "sample_ktypes =
     \<lparr>getMsg = [103, 101, 116],
      DecodeBlock = (\<lambda>b. if length b < 40 then None else Some b),
      Header_Height = Uint64,
      Header_Hash = (\<lambda>b. take 32 (drop 8 b))\<rparr>"

definition sample_engine :: "Role \<Rightarrow> ConsensusEngine" where
  "sample_engine role = \<lparr>Role = role, AcceptProposal = (\<lambda>height hash prevHash sig stamp. True)\<rparr>"

definition sample_types :: "byte list types" where
  "sample_types =
     \<lparr>AckRes_MarshalBinary = (\<lambda>ack. ack),
      AckRes_UnmarshalBinary = (\<lambda>b. if b = [] then None else Some b),
      DiscRes_MarshalBinary = (\<lambda>dm. PutUint64 (BestHeight dm)),
      DiscRes_UnmarshalBinary =
        (\<lambda>b. if length b = 8 then Some \<lparr>BestHeight = Uint64 b\<rparr> else None),
      ConsensusReset_Bytes = (\<lambda>reset. PutUint64 (ToHeight reset) @ concat (TxIDs reset)),
      ConsensusReset_UnmarshalBinary =
        (\<lambda>b. if length b = 8 then Some \<lparr>ToHeight = Uint64 b, TxIDs = []\<rparr> else None),
      PubKeyFromPeerID = (\<lambda>p. if p = [] then None else Some p)\<rparr>"

definition sample_node :: "Role \<Rightarrow> Node" where
  "sample_node role =
     \<lparr>host_ID = [1], ce = sample_engine role, bki_Best = (42, zero_hash, zero_hash)\<rparr>"

definition sample_HashBytes :: "byte list \<Rightarrow> hash" where
  "sample_HashBytes b = take HashLen (rev b @ replicate HashLen 0)"

definition sample_crypto :: "byte crypto" where
  "sample_crypto =
     \<lparr>VoteBytes = (\<lambda>blkID ack appHash.
        blkID @ [if ack then 1 else 0] @ (case appHash of None \<Rightarrow> [] | Some h \<Rightarrow> h)),
      Sign = (\<lambda>k m. k # m),
      Public = (\<lambda>k. [k]),
      Type = (\<lambda>k. S1),
      VerifySignature = (\<lambda>t pub m s. s = pub @ m)\<rparr>"

section \<open>The wire format of a block proposal\<close>

lemma le_word_le_bytes: "le_word (le_bytes n v) = take_bit (8 * n) v"
proof (induction n arbitrary: v)
  case 0
  then show ?case by simp
next
  case (Suc n)
  show ?case
    apply (simp add: Suc)
    apply (rule bit_word_eqI)
    apply (auto simp: bit_simps)
    done
qed

lemma length_le_bytes: "length (le_bytes n v) = n"
  by (induction n arbitrary: v) auto

lemma length_PutUint64: "length (PutUint64 v) = 8"
  by (simp add: PutUint64_def length_le_bytes del: le_bytes.simps)

lemma Uint64_PutUint64: "Uint64 (PutUint64 v @ rest) = v"
proof -
  have "take 8 (PutUint64 v @ rest) = le_bytes 8 v"
    using length_PutUint64 [of v] by (simp add: PutUint64_def del: le_bytes.simps)
  then have "Uint64 (PutUint64 v @ rest) = take_bit (8 * 8) v"
    by (simp only: Uint64_def le_word_le_bytes)
  also have "\<dots> = v"
    by (rule take_bit_word_eq_self) simp
  finally show ?thesis .
qed

lemma sint_of_nat_64: "n < 2 ^ 63 \<Longrightarrow> sint (of_nat n :: 64 word) = int n"
  by (simp add: signed_of_nat signed_take_bit_int_eq_self)

lemma copy_at_fill:
  "length pre = c \<Longrightarrow> length src \<le> n \<Longrightarrow>
   copy_at (pre @ replicate n 0) c src = (pre @ src) @ replicate (n - length src) 0"
  by (simp add: copy_at_def)

lemma copy_at_whole: "length src = length buf \<Longrightarrow> copy_at buf 0 src = src"
  by (simp add: copy_at_def)

lemma wf_zero_blockProp: "wf_blockProp zero_blockProp"
  by (simp add: wf_blockProp_def zero_blockProp_def wf_hash_def zero_hash_def)

text \<open>The buffer that \<open>MarshalBinary\<close> fills is the concatenation of the six fields.\<close>

lemma MarshalBinary_concat:
  assumes "wf_blockProp bp"
  shows "MarshalBinary bp =
    PutUint64 (Height bp) @ Hash bp @ PrevHash bp @ PutUint64 (Stamp bp) @
    PutUint64 (of_nat (len (LeaderSig bp))) @ bytes_of (LeaderSig bp)"
proof -
  define n where "n = len (LeaderSig bp)"
  define A where "A = PutUint64 (Height bp)"
  define S where "S = PutUint64 (Stamp bp)"
  define L where "L = PutUint64 (of_nat (len (LeaderSig bp)))"
  define G where "G = bytes_of (LeaderSig bp)"
  have len: "length (Hash bp) = 32" "length (PrevHash bp) = 32"
    "length A = 8" "length S = 8" "length L = 8"
    using assms
    by (simp_all add: wf_blockProp_def wf_hash_def HashLen_def length_PutUint64 A_def S_def L_def)
  have G: "length G = n"
    by (cases "LeaderSig bp") (simp_all add: G_def n_def)
  have b1: "copy_at (replicate (88 + n) 0) 0 A = A @ replicate (80 + n) 0"
    using copy_at_fill [of "[]" 0 A "88 + n"] len by simp
  have b2: "copy_at (A @ replicate (80 + n) 0) 8 (Hash bp) = (A @ Hash bp) @ replicate (48 + n) 0"
    using copy_at_fill [of A 8 "Hash bp" "80 + n"] len by simp
  have b3: "copy_at ((A @ Hash bp) @ replicate (48 + n) 0) 40 (PrevHash bp)
            = (A @ Hash bp @ PrevHash bp) @ replicate (16 + n) 0"
    using copy_at_fill [of "A @ Hash bp" 40 "PrevHash bp" "48 + n"] len by simp
  have b4: "copy_at ((A @ Hash bp @ PrevHash bp) @ replicate (16 + n) 0) 72 S
            = (A @ Hash bp @ PrevHash bp @ S) @ replicate (8 + n) 0"
    using copy_at_fill [of "A @ Hash bp @ PrevHash bp" 72 S "16 + n"] len by simp
  have b5: "copy_at ((A @ Hash bp @ PrevHash bp @ S) @ replicate (8 + n) 0) 80 L
            = (A @ Hash bp @ PrevHash bp @ S @ L) @ replicate n 0"
    using copy_at_fill [of "A @ Hash bp @ PrevHash bp @ S" 80 L "8 + n"] len by simp
  have b6: "copy_at ((A @ Hash bp @ PrevHash bp @ S @ L) @ replicate n 0) 88 G
            = A @ Hash bp @ PrevHash bp @ S @ L @ G"
    using copy_at_fill [of "A @ Hash bp @ PrevHash bp @ S @ L" 88 G n] len G
    by simp
  have "MarshalBinary bp =
        copy_at (copy_at (copy_at (copy_at (copy_at (copy_at (replicate (88 + n) 0) 0 A)
          8 (Hash bp)) 40 (PrevHash bp)) 72 S) 80 L) 88 G"
    by (simp add: MarshalBinary_def Let_def HashLen_def n_def A_def S_def L_def G_def)
  also have "\<dots> = A @ Hash bp @ PrevHash bp @ S @ L @ G"
    by (simp only: b1 b2 b3 b4 b5 b6)
  finally show ?thesis
    by (simp only: A_def S_def L_def G_def)
qed

lemma ReadFull_enough:
  "k \<le> length (pending r) \<Longrightarrow>
   ReadFull r k = (take k (pending r), None, r\<lparr>pending := drop k (pending r)\<rparr>)"
  by (simp add: ReadFull_def)

lemma binary_Read_enough:
  "8 \<le> length (pending r) \<Longrightarrow>
   binary_Read r = (Inr (Uint64 (pending r)), r\<lparr>pending := drop 8 (pending r)\<rparr>)"
  by (simp add: binary_Read_def ReadFull_enough Uint64_def)

text \<open>
  With the 88 bytes of the fixed part at hand, \<open>ReadFrom\<close> gets as far as the length of
  the signature, and what it does next depends on that length alone.
\<close>

lemma ReadFrom_header:
  assumes "wf_blockProp bp" and "88 \<le> length (pending r)"
  shows "ReadFrom bp r =
    (let d = pending r;
         bp' = bp\<lparr>Height := Uint64 d, Hash := take 32 (drop 8 d),
                  PrevHash := take 32 (drop 40 d), Stamp := Uint64 (drop 72 d)\<rparr>;
         sigLen = Uint64 (drop 80 d);
         r' = r\<lparr>pending := drop 88 d\<rparr>
     in if sint sigLen > 1000 then (bp', r', Returned 88 (Some ErrInvalidSignatureLength))
        else if sint sigLen < 0 then (bp', r', Panicked)
        else (case ReadFull r' (nat (sint sigLen)) of (got, err, r'') \<Rightarrow>
           (bp'\<lparr>LeaderSig := Slice (copy_at (replicate (nat (sint sigLen)) 0) 0 got)\<rparr>, r'',
            case err of Some e \<Rightarrow> Returned (int (length got)) (Some e)
                      | None \<Rightarrow> Returned (88 + int (length got)) None)))"
proof -
  have len: "length (Hash bp) = 32" "length (PrevHash bp) = 32"
    using assms
    by (simp_all add: wf_blockProp_def wf_hash_def HashLen_def)
  show ?thesis
    using assms(2) len
    by (simp add: ReadFrom_def binary_Read_enough ReadFull_enough HashLen_def Let_def
        copy_at_whole split: prod.splits option.splits)
qed

lemma length_bytes_of: "length (bytes_of sl) = len sl"
  by (cases sl) simp_all

lemma ReadFrom_MarshalBinary:
  assumes x: "wf_blockProp x" and bp: "wf_blockProp bp"
    and d: "pending r = MarshalBinary x @ rest"
    and n: "len (LeaderSig x) < 2 ^ 63"
  shows "ReadFrom bp r =
    (if len (LeaderSig x) > 1000
     then (bp\<lparr>Height := Height x, Hash := Hash x, PrevHash := PrevHash x, Stamp := Stamp x\<rparr>,
           r\<lparr>pending := bytes_of (LeaderSig x) @ rest\<rparr>,
           Returned 88 (Some ErrInvalidSignatureLength))
     else (bp\<lparr>Height := Height x, Hash := Hash x, PrevHash := PrevHash x, Stamp := Stamp x,
              LeaderSig := Slice (bytes_of (LeaderSig x))\<rparr>,
           r\<lparr>pending := rest\<rparr>, Returned (88 + int (len (LeaderSig x))) None))"
proof -
  have len: "length (Hash x) = 32" "length (PrevHash x) = 32"
    using x by (simp_all add: wf_blockProp_def wf_hash_def HashLen_def)
  have d': "pending r = PutUint64 (Height x) @ Hash x @ PrevHash x @ PutUint64 (Stamp x) @
      PutUint64 (of_nat (len (LeaderSig x))) @ bytes_of (LeaderSig x) @ rest"
    using d MarshalBinary_concat [OF x] by simp
  have ge: "88 \<le> length (pending r)"
    by (simp add: d' len length_PutUint64)
  have f1: "Uint64 (pending r) = Height x"
    by (simp add: d' Uint64_PutUint64)
  have f2: "take 32 (drop 8 (pending r)) = Hash x"
    by (simp add: d' len length_PutUint64)
  have f3: "take 32 (drop 40 (pending r)) = PrevHash x"
    by (simp add: d' len length_PutUint64)
  have f4: "Uint64 (drop 72 (pending r)) = Stamp x"
    by (simp add: d' len length_PutUint64 Uint64_PutUint64)
  have f5: "Uint64 (drop 80 (pending r)) = of_nat (len (LeaderSig x))"
    by (simp add: d' len length_PutUint64 Uint64_PutUint64)
  have f6: "drop 88 (pending r) = bytes_of (LeaderSig x) @ rest"
    by (simp add: d' len length_PutUint64)
  have s: "sint (of_nat (len (LeaderSig x)) :: 64 word) = int (len (LeaderSig x))"
    using n by (rule sint_of_nat_64)
  show ?thesis
    unfolding ReadFrom_header [OF bp ge] Let_def f1 f2 f3 f4 f5 f6 s
    by (simp add: ReadFull_def copy_at_whole length_bytes_of)
qed

text \<open>
  C2, as amended. For every well-formed proposal whose leader signature has at most 1000
  bytes, decoding its encoding into any receiver succeeds and gives the proposal back
  with a leader signature that is not nil and has the same bytes: the proposal itself when
  its leader signature is not nil, and the proposal with the empty slice in place of nil
  otherwise. Encoding the decoded value gives the same bytes again in both cases.
\<close>

theorem blockProp_roundtrip:
  assumes "wf_blockProp x" and "wf_blockProp bp" and "len (LeaderSig x) \<le> 1000"
  shows "UnmarshalBinary bp (MarshalBinary x)
           = (x\<lparr>LeaderSig := Slice (bytes_of (LeaderSig x))\<rparr>, Done None) \<and>
         (LeaderSig x \<noteq> NilSlice \<longrightarrow> UnmarshalBinary bp (MarshalBinary x) = (x, Done None)) \<and>
         MarshalBinary (fst (UnmarshalBinary bp (MarshalBinary x))) = MarshalBinary x"
proof -
  have "ReadFrom bp (NewReader (MarshalBinary x)) =
    (bp\<lparr>Height := Height x, Hash := Hash x, PrevHash := PrevHash x, Stamp := Stamp x,
        LeaderSig := Slice (bytes_of (LeaderSig x))\<rparr>,
     (NewReader (MarshalBinary x))\<lparr>pending := []\<rparr>,
     Returned (88 + int (len (LeaderSig x))) None)"
    using ReadFrom_MarshalBinary [OF assms(1,2), of "NewReader (MarshalBinary x)" "[]"] assms(3)
    by (simp add: NewReader_def)
  then have dec: "UnmarshalBinary bp (MarshalBinary x)
      = (x\<lparr>LeaderSig := Slice (bytes_of (LeaderSig x))\<rparr>, Done None)"
    by (simp add: UnmarshalBinary_def)
  have same: "LeaderSig x \<noteq> NilSlice \<Longrightarrow> x\<lparr>LeaderSig := Slice (bytes_of (LeaderSig x))\<rparr> = x"
    by (cases "LeaderSig x") simp_all
  have enc: "MarshalBinary (x\<lparr>LeaderSig := Slice (bytes_of (LeaderSig x))\<rparr>) = MarshalBinary x"
    by (cases "LeaderSig x") (simp_all add: MarshalBinary_def)
  show ?thesis
    using dec same enc by simp
qed

theorem blockProp_roundtrip_witness:
  "UnmarshalBinary zero_blockProp
     (MarshalBinary (zero_blockProp\<lparr>Height := 7, LeaderSig := Slice [1, 2, 3]\<rparr>))
     = (zero_blockProp\<lparr>Height := 7, LeaderSig := Slice [1, 2, 3]\<rparr>, Done None)"
proof -
  let ?x = "zero_blockProp\<lparr>Height := 7, LeaderSig := Slice [1, 2, 3]\<rparr>"
  have w: "wf_blockProp ?x"
    using wf_zero_blockProp by (simp add: wf_blockProp_def)
  have l: "len (LeaderSig ?x) \<le> 1000"
    by simp
  have nn: "LeaderSig ?x \<noteq> NilSlice"
    by simp
  show ?thesis
    using blockProp_roundtrip [OF w wf_zero_blockProp l] nn by blast
qed

text \<open>
  C2, as stated, fails twice. A proposal whose leader signature has 1001 bytes is encoded,
  and decoding the encoding returns the error "invalid signature length". A proposal whose
  leader signature is nil is encoded and decoded without error, and the decoded value is
  not the proposal: its leader signature is the empty slice that \<open>make\<close> returned.
\<close>

theorem blockProp_roundtrip_counterexample:
  "UnmarshalBinary zero_blockProp
     (MarshalBinary (zero_blockProp\<lparr>LeaderSig := Slice (replicate 1001 0)\<rparr>))
     = (zero_blockProp, Done (Some ErrInvalidSignatureLength)) \<and>
   UnmarshalBinary zero_blockProp (MarshalBinary zero_blockProp)
     = (zero_blockProp\<lparr>LeaderSig := Slice []\<rparr>, Done None) \<and>
   zero_blockProp\<lparr>LeaderSig := Slice []\<rparr> \<noteq> zero_blockProp"
proof -
  let ?x = "zero_blockProp\<lparr>LeaderSig := Slice (replicate 1001 0)\<rparr>"
  have w: "wf_blockProp ?x"
    using wf_zero_blockProp by (simp add: wf_blockProp_def)
  have "ReadFrom zero_blockProp (NewReader (MarshalBinary ?x)) =
     (zero_blockProp, (NewReader (MarshalBinary ?x))\<lparr>pending := replicate 1001 0\<rparr>,
      Returned 88 (Some ErrInvalidSignatureLength))"
    using ReadFrom_MarshalBinary [OF w wf_zero_blockProp, of "NewReader (MarshalBinary ?x)" "[]"]
    by (simp add: NewReader_def zero_blockProp_def)
  then have long: "UnmarshalBinary zero_blockProp (MarshalBinary ?x)
      = (zero_blockProp, Done (Some ErrInvalidSignatureLength))"
    by (simp add: UnmarshalBinary_def)
  have "ReadFrom zero_blockProp (NewReader (MarshalBinary zero_blockProp)) =
     (zero_blockProp\<lparr>LeaderSig := Slice []\<rparr>,
      (NewReader (MarshalBinary zero_blockProp))\<lparr>pending := []\<rparr>, Returned 88 None)"
    using ReadFrom_MarshalBinary [OF wf_zero_blockProp wf_zero_blockProp,
        of "NewReader (MarshalBinary zero_blockProp)" "[]"]
    by (simp add: NewReader_def zero_blockProp_def)
  then have nil: "UnmarshalBinary zero_blockProp (MarshalBinary zero_blockProp)
      = (zero_blockProp\<lparr>LeaderSig := Slice []\<rparr>, Done None)"
    by (simp add: UnmarshalBinary_def)
  have differ: "zero_blockProp\<lparr>LeaderSig := Slice []\<rparr> \<noteq> zero_blockProp"
    by (simp add: zero_blockProp_def)
  show ?thesis
    using long nil differ by simp
qed

text \<open>
  C3. When the fixed part of the input is there and its length field, read as a signed
  64-bit integer, is above 1000, \<open>ReadFrom\<close> returns the error "invalid signature length";
  the reader is left just after the length field, so no byte of the signature has been
  read, and the receiver's signature is as it was. \<open>UnmarshalBinary\<close> on the same bytes
  returns the same error.
\<close>

theorem sigLen_cap:
  assumes "wf_blockProp bp" and "88 \<le> length (pending r)"
    and "sint (Uint64 (drop 80 (pending r))) > 1000"
  shows "(\<exists>bp' r'. ReadFrom bp r = (bp', r', Returned 88 (Some ErrInvalidSignatureLength)) \<and>
           pending r' = drop 88 (pending r) \<and> LeaderSig bp' = LeaderSig bp) \<and>
         snd (UnmarshalBinary bp (pending r)) = Done (Some ErrInvalidSignatureLength)"
proof -
  have ge: "88 \<le> length (pending (NewReader (pending r)))"
    using assms(2) by (simp add: NewReader_def)
  have big: "sint (Uint64 (drop 80 (pending (NewReader (pending r))))) > 1000"
    using assms(3) by (simp add: NewReader_def)
  obtain bp' r' out where rf: "ReadFrom bp (NewReader (pending r)) = (bp', r', out)"
    by (cases "ReadFrom bp (NewReader (pending r))") auto
  have "snd (snd (ReadFrom bp (NewReader (pending r))))
          = Returned 88 (Some ErrInvalidSignatureLength)"
    using big by (simp add: ReadFrom_header [OF assms(1) ge] Let_def)
  then have "out = Returned 88 (Some ErrInvalidSignatureLength)"
    by (simp add: rf)
  then have "snd (UnmarshalBinary bp (pending r)) = Done (Some ErrInvalidSignatureLength)"
    by (simp add: UnmarshalBinary_def rf)
  then show ?thesis
    using assms(3) by (simp add: ReadFrom_header [OF assms(1,2)] Let_def)
qed

theorem sigLen_cap_witness:
  "(\<exists>bp' r'. ReadFrom zero_blockProp
               (NewReader (replicate 80 0 @ [255, 255] @ replicate 6 0 @ [1, 2, 3]))
      = (bp', r', Returned 88 (Some ErrInvalidSignatureLength)) \<and>
      pending r' = [1, 2, 3] \<and> LeaderSig bp' = NilSlice) \<and>
   snd (UnmarshalBinary zero_blockProp (replicate 80 0 @ [255, 255] @ replicate 6 0 @ [1, 2, 3]))
     = Done (Some ErrInvalidSignatureLength)"
proof -
  let ?r = "NewReader (replicate 80 0 @ [255, 255] @ replicate 6 0 @ [1, 2, 3])"
  have h2: "88 \<le> length (pending ?r)"
    by (simp add: NewReader_def)
  have h3: "sint (Uint64 (drop 80 (pending ?r))) > 1000"
    by code_simp
  show ?thesis
    using sigLen_cap [OF wf_zero_blockProp h2 h3]
    by (simp add: NewReader_def zero_blockProp_def)
qed

text \<open>
  C9. When the fixed part of the input is there and its length field, read as a signed
  64-bit integer, is negative, the check against 1000 lets it through and \<open>ReadFrom\<close>
  panics in \<open>make\<close>; \<open>UnmarshalBinary\<close> then does not return to its caller.
\<close>

theorem negative_sigLen_panics:
  assumes "wf_blockProp bp" and "88 \<le> length data"
    and "sint (Uint64 (drop 80 data)) < 0"
  shows "snd (snd (ReadFrom bp (NewReader data))) = Panicked \<and>
         snd (UnmarshalBinary bp data) = Aborted"
proof -
  have ge: "88 \<le> length (pending (NewReader data))"
    using assms(2) by (simp add: NewReader_def)
  have neg: "sint (Uint64 (drop 80 (pending (NewReader data)))) < 0"
    using assms(3) by (simp add: NewReader_def)
  obtain bp' r' out where rf: "ReadFrom bp (NewReader data) = (bp', r', out)"
    by (cases "ReadFrom bp (NewReader data)") auto
  have "snd (snd (ReadFrom bp (NewReader data))) = Panicked"
    using neg by (simp add: ReadFrom_header [OF assms(1) ge] Let_def)
  then have "out = Panicked"
    by (simp add: rf)
  then show ?thesis
    by (simp add: UnmarshalBinary_def rf)
qed

theorem negative_sigLen_panics_witness:
  "snd (UnmarshalBinary zero_blockProp (replicate 80 0 @ replicate 8 255)) = Aborted"
proof -
  have h2: "88 \<le> length (replicate 80 0 @ replicate 8 (255 :: byte))"
    by simp
  have h3: "sint (Uint64 (drop 80 (replicate 80 0 @ replicate 8 255))) < 0"
    by code_simp
  show ?thesis
    using negative_sigLen_panics [OF wf_zero_blockProp h2 h3] by simp
qed

section \<open>The receiver of a block proposal\<close>

text \<open>The handler by cases of what \<open>ReadFrom\<close> did.\<close>

lemma handler_panicked:
  "ReadFrom zero_blockProp (inbound s) = (prop, r, Panicked) \<Longrightarrow>
   blkPropStreamHandler kt eng s = [Panic, Stream_Close]"
  by (simp add: blkPropStreamHandler_def)

lemma handler_read_error:
  "ReadFrom zero_blockProp (inbound s) = (prop, r, Returned n (Some e)) \<Longrightarrow>
   blkPropStreamHandler kt eng s = [Stream_Close]"
  by (simp add: blkPropStreamHandler_def)

lemma handler_read_ok:
  "ReadFrom zero_blockProp (inbound s) = (prop, r, Returned n None) \<Longrightarrow>
   ReadAll r = (res, r') \<Longrightarrow>
   blkPropStreamHandler kt eng s =
     CE_AcceptProposal (Height prop) (Hash prop) (PrevHash prop) (LeaderSig prop) (Stamp prop)
       (AcceptProposal eng (Height prop) (Hash prop) (PrevHash prop) (LeaderSig prop)
          (Stamp prop)) #
     (if \<not> AcceptProposal eng (Height prop) (Hash prop) (PrevHash prop) (LeaderSig prop)
             (Stamp prop)
      then [Stream_Close]
      else Stream_Write (getMsg kt) (write_err s) #
        (if write_err s \<noteq> None then [Stream_Close]
         else (case res of Inl err \<Rightarrow> [Stream_Close] | Inr blkProp \<Rightarrow>
           (case DecodeBlock kt blkProp of None \<Rightarrow> [Stream_Close] | Some blk \<Rightarrow>
              if Header_Height kt blk = Height prop \<and> Header_Hash kt blk = Hash prop
              then [CE_NotifyBlockProposal blk, Stream_Close] else [Stream_Close]))))"
  by (simp add: blkPropStreamHandler_def Let_def split: option.splits sum.splits)

lemma handler_notifies_iff:
  "CE_NotifyBlockProposal blk \<in> set (blkPropStreamHandler kt eng s) \<longleftrightarrow>
     (\<exists>prop r n blkProp.
        ReadFrom zero_blockProp (inbound s) = (prop, r, Returned n None) \<and>
        AcceptProposal eng (Height prop) (Hash prop) (PrevHash prop) (LeaderSig prop)
          (Stamp prop) \<and>
        write_err s = None \<and>
        fst (ReadAll r) = Inr blkProp \<and> DecodeBlock kt blkProp = Some blk \<and>
        Header_Height kt blk = Height prop \<and> Header_Hash kt blk = Hash prop)"
proof -
  obtain p r out where rf: "ReadFrom zero_blockProp (inbound s) = (p, r, out)"
    by (cases "ReadFrom zero_blockProp (inbound s)") auto
  obtain res r' where ra: "ReadAll r = (res, r')"
    by (cases "ReadAll r") auto
  show ?thesis
  proof (cases out)
    case Panicked
    then show ?thesis
      using rf by (simp add: handler_panicked)
  next
    case (Returned n err)
    show ?thesis
    proof (cases err)
      case (Some e)
      then show ?thesis
        using rf Returned by (simp add: handler_read_error)
    next
      case None
      then have rf': "ReadFrom zero_blockProp (inbound s) = (p, r, Returned n None)"
        using rf Returned by simp
      show ?thesis
        unfolding handler_read_ok [OF rf' ra]
        by (auto simp: rf' ra split: option.splits sum.splits)
    qed
  qed
qed

lemma handler_closes: "last (blkPropStreamHandler kt eng s) = Stream_Close"
proof -
  obtain p r out where rf: "ReadFrom zero_blockProp (inbound s) = (p, r, out)"
    by (cases "ReadFrom zero_blockProp (inbound s)") auto
  obtain res r' where ra: "ReadAll r = (res, r')"
    by (cases "ReadAll r") auto
  show ?thesis
  proof (cases out)
    case Panicked
    then show ?thesis
      using rf by (simp add: handler_panicked)
  next
    case (Returned n err)
    show ?thesis
    proof (cases err)
      case (Some e)
      then show ?thesis
        using rf Returned by (simp add: handler_read_error)
    next
      case None
      then have rf': "ReadFrom zero_blockProp (inbound s) = (p, r, Returned n None)"
        using rf Returned by simp
      show ?thesis
        unfolding handler_read_ok [OF rf' ra]
        by (simp split: option.splits sum.splits)
    qed
  qed
qed

lemma handler_write_after_accept:
  assumes "Stream_Write w e \<in> set (blkPropStreamHandler kt eng s)"
  shows "w = getMsg kt \<and>
     (\<exists>h a b c st rest. blkPropStreamHandler kt eng s =
        CE_AcceptProposal h a b c st True # Stream_Write (getMsg kt) e # rest)"
proof -
  obtain p r out where rf: "ReadFrom zero_blockProp (inbound s) = (p, r, out)"
    by (cases "ReadFrom zero_blockProp (inbound s)") auto
  obtain res r' where ra: "ReadAll r = (res, r')"
    by (cases "ReadAll r") auto
  show ?thesis
  proof (cases out)
    case Panicked
    then show ?thesis
      using rf assms by (simp add: handler_panicked)
  next
    case (Returned n err)
    show ?thesis
    proof (cases err)
      case (Some e)
      then show ?thesis
        using rf Returned assms by (simp add: handler_read_error)
    next
      case None
      then have rf': "ReadFrom zero_blockProp (inbound s) = (p, r, Returned n None)"
        using rf Returned by simp
      show ?thesis
        using assms unfolding handler_read_ok [OF rf' ra]
        by (auto split: option.splits sum.splits if_splits)
    qed
  qed
qed

lemma ReadFrom_zero_blockProp:
  "ReadFrom zero_blockProp \<lparr>pending = MarshalBinary zero_blockProp @ rest, ending = e\<rparr>
     = (zero_blockProp\<lparr>LeaderSig := Slice []\<rparr>, \<lparr>pending = rest, ending = e\<rparr>,
        Returned 88 None)"
  using ReadFrom_MarshalBinary [OF wf_zero_blockProp wf_zero_blockProp,
      of "\<lparr>pending = MarshalBinary zero_blockProp @ rest, ending = e\<rparr>" rest]
  by (simp add: zero_blockProp_def)

lemma Uint64_zeros: "Uint64 (replicate 40 0) = 0"
  by code_simp

lemma sample_block_fields:
  "DecodeBlock sample_ktypes (replicate 40 0) = Some (replicate 40 0)"
  "Header_Height sample_ktypes (replicate 40 0) = Height zero_blockProp"
  "Header_Hash sample_ktypes (replicate 40 0) = Hash zero_blockProp"
  "AcceptProposal (sample_engine role) h a b c st"
  by (simp_all add: sample_ktypes_def sample_engine_def zero_blockProp_def zero_hash_def
      HashLen_def Uint64_zeros)

text \<open>
  C1, as amended. The receiver notifies the consensus engine of a block exactly when the
  announcement decodes, the engine accepts it, the write of \<open>getMsg\<close> succeeds, the rest of
  the stream is read to its end without error and decodes as that block, and the block's
  height and hash are the announced ones. Whatever happens, the last thing the handler does
  is close the stream. A write to the stream carries \<open>getMsg\<close> and comes right after the
  engine has accepted the proposal.
\<close>

theorem blkPropStreamHandler_notifies:
  "(CE_NotifyBlockProposal blk \<in> set (blkPropStreamHandler kt eng s) \<longleftrightarrow>
     (\<exists>prop r n blkProp.
        ReadFrom zero_blockProp (inbound s) = (prop, r, Returned n None) \<and>
        AcceptProposal eng (Height prop) (Hash prop) (PrevHash prop) (LeaderSig prop)
          (Stamp prop) \<and>
        write_err s = None \<and>
        fst (ReadAll r) = Inr blkProp \<and> DecodeBlock kt blkProp = Some blk \<and>
        Header_Height kt blk = Height prop \<and> Header_Hash kt blk = Hash prop)) \<and>
   last (blkPropStreamHandler kt eng s) = Stream_Close \<and>
   (\<forall>w e. Stream_Write w e \<in> set (blkPropStreamHandler kt eng s) \<longrightarrow>
      w = getMsg kt \<and>
      (\<exists>h a b c st rest. blkPropStreamHandler kt eng s =
         CE_AcceptProposal h a b c st True # Stream_Write (getMsg kt) e # rest))"
  using handler_notifies_iff [of blk kt eng s] handler_closes [of kt eng s]
    handler_write_after_accept [of _ _ kt eng s]
  by blast

theorem blkPropStreamHandler_notifies_witness:
  "CE_NotifyBlockProposal (replicate 40 0) \<in>
     set (blkPropStreamHandler sample_ktypes (sample_engine RoleValidator)
       \<lparr>inbound = \<lparr>pending = MarshalBinary zero_blockProp @ replicate 40 0, ending = EOF\<rparr>,
        write_err = None\<rparr>) \<and>
   (\<exists>h a b c st rest.
      blkPropStreamHandler sample_ktypes (sample_engine RoleValidator)
       \<lparr>inbound = \<lparr>pending = MarshalBinary zero_blockProp @ replicate 40 0, ending = EOF\<rparr>,
        write_err = None\<rparr>
      = CE_AcceptProposal h a b c st True # Stream_Write (getMsg sample_ktypes) None # rest)"
proof -
  let ?s = "\<lparr>inbound = \<lparr>pending = MarshalBinary zero_blockProp @ replicate 40 0, ending = EOF\<rparr>,
             write_err = None\<rparr>"
  let ?decoded = "zero_blockProp\<lparr>LeaderSig := Slice []\<rparr>"
  note inst = blkPropStreamHandler_notifies
      [of "replicate 40 0" sample_ktypes "sample_engine RoleValidator" ?s]
  have "ReadFrom zero_blockProp (inbound ?s)
          = (?decoded, \<lparr>pending = replicate 40 0, ending = EOF\<rparr>, Returned 88 None) \<and>
        AcceptProposal (sample_engine RoleValidator) (Height ?decoded)
          (Hash ?decoded) (PrevHash ?decoded) (LeaderSig ?decoded) (Stamp ?decoded) \<and>
        write_err ?s = None \<and>
        fst (ReadAll \<lparr>pending = replicate 40 0, ending = EOF\<rparr>) = Inr (replicate 40 0) \<and>
        DecodeBlock sample_ktypes (replicate 40 0) = Some (replicate 40 0) \<and>
        Header_Height sample_ktypes (replicate 40 0) = Height ?decoded \<and>
        Header_Hash sample_ktypes (replicate 40 0) = Hash ?decoded"
    by (simp add: ReadFrom_zero_blockProp sample_block_fields ReadAll_def)
  then have notified: "CE_NotifyBlockProposal (replicate 40 0) \<in>
      set (blkPropStreamHandler sample_ktypes (sample_engine RoleValidator) ?s)"
    using inst by blast
  have "Stream_Write (getMsg sample_ktypes) None \<in>
      set (blkPropStreamHandler sample_ktypes (sample_engine RoleValidator) ?s)"
    by (simp add: blkPropStreamHandler_def ReadFrom_zero_blockProp sample_block_fields ReadAll_def)
  then have "\<exists>h a b c st rest.
      blkPropStreamHandler sample_ktypes (sample_engine RoleValidator) ?s
      = CE_AcceptProposal h a b c st True # Stream_Write (getMsg sample_ktypes) None # rest"
    using inst by blast
  with notified show ?thesis by simp
qed

text \<open>
  C1, as stated, fails. On this stream the announcement decodes, the engine accepts it,
  the rest of the stream decodes as a block of the announced height and hash, but the write
  of \<open>getMsg\<close> fails: the handler returns and the engine is not notified.
\<close>

theorem blkPropStreamHandler_counterexample:
  "ReadFrom zero_blockProp \<lparr>pending = MarshalBinary zero_blockProp @ replicate 40 0, ending = EOF\<rparr>
     = (zero_blockProp\<lparr>LeaderSig := Slice []\<rparr>, \<lparr>pending = replicate 40 0, ending = EOF\<rparr>,
        Returned 88 None) \<and>
   AcceptProposal (sample_engine RoleValidator) (Height zero_blockProp) (Hash zero_blockProp)
     (PrevHash zero_blockProp) (Slice []) (Stamp zero_blockProp) \<and>
   fst (ReadAll \<lparr>pending = replicate 40 0, ending = EOF\<rparr>) = Inr (replicate 40 0) \<and>
   DecodeBlock sample_ktypes (replicate 40 0) = Some (replicate 40 0) \<and>
   Header_Height sample_ktypes (replicate 40 0) = Height zero_blockProp \<and>
   Header_Hash sample_ktypes (replicate 40 0) = Hash zero_blockProp \<and>
   blkPropStreamHandler sample_ktypes (sample_engine RoleValidator)
     \<lparr>inbound = \<lparr>pending = MarshalBinary zero_blockProp @ replicate 40 0, ending = EOF\<rparr>,
      write_err = Some ErrTransport\<rparr>
   = [CE_AcceptProposal 0 zero_hash zero_hash (Slice []) 0 True,
      Stream_Write [103, 101, 116] (Some ErrTransport), Stream_Close]"
proof -
  have "blkPropStreamHandler sample_ktypes (sample_engine RoleValidator)
     \<lparr>inbound = \<lparr>pending = MarshalBinary zero_blockProp @ replicate 40 0, ending = EOF\<rparr>,
      write_err = Some ErrTransport\<rparr>
   = [CE_AcceptProposal (Height zero_blockProp) (Hash zero_blockProp) (PrevHash zero_blockProp)
        (Slice []) (Stamp zero_blockProp) True,
      Stream_Write (getMsg sample_ktypes) (Some ErrTransport), Stream_Close]"
    by (simp add: blkPropStreamHandler_def ReadFrom_zero_blockProp sample_block_fields)
  then show ?thesis
    by (simp add: ReadFrom_zero_blockProp sample_block_fields ReadAll_def)
       (simp add: zero_blockProp_def sample_ktypes_def)
qed

section \<open>The gossip tasks\<close>

lemma ackPublishTask_prefix:
  "ackPublishTask T (map (\<lambda>a. From_chan a None) acks @ turns) =
     map (\<lambda>a. Publish TopicACKs (AckRes_MarshalBinary T a) None) acks @ ackPublishTask T turns"
  by (induction acks) simp_all

text \<open>
  C7. While every publish succeeds, the publish task publishes the marshaled acks to
  \<open>TopicACKs\<close> in the order in which they came out of the channel. At the first publish
  that fails the task ends: nothing that comes out of the channel later is published.
  The same holds when the context is done.
\<close>

theorem ackPublishTask_order:
  "ackPublishTask T (map (\<lambda>a. From_chan a None) acks) =
     map (\<lambda>a. Publish TopicACKs (AckRes_MarshalBinary T a) None) acks \<and>
   ackPublishTask T (map (\<lambda>a. From_chan a None) acks @ From_chan ack (Some e) # later) =
     map (\<lambda>a. Publish TopicACKs (AckRes_MarshalBinary T a) None) acks @
     [Publish TopicACKs (AckRes_MarshalBinary T ack) (Some e), Topic_Close TopicACKs] \<and>
   ackPublishTask T (map (\<lambda>a. From_chan a None) acks @ Ctx_Done # later) =
     map (\<lambda>a. Publish TopicACKs (AckRes_MarshalBinary T a) None) acks @
     [Topic_Close TopicACKs]"
  using ackPublishTask_prefix [of T acks "[]"]
  by (simp add: ackPublishTask_prefix)

theorem ackPublishTask_order_witness:
  "ackPublishTask sample_types
     [From_chan [1] None, From_chan [2] None, From_chan [3] (Some ErrTransport),
      From_chan [4] None] =
   [Publish TopicACKs [1] None, Publish TopicACKs [2] None,
    Publish TopicACKs [3] (Some ErrTransport), Topic_Close TopicACKs]"
  using ackPublishTask_order [of sample_types "[[1], [2]]" "[3]" ErrTransport "[From_chan [4] None]"]
  by (simp add: sample_types_def)

lemma ackRecvTask_msgs:
  "ackRecvTask T me (map (\<lambda>(n, m). Next_msg n m) arrivals) =
     concat (map (\<lambda>(n, m). ackRecvMsg T me n m) arrivals)"
  by (induction arrivals) auto

text \<open>
  C4. For a message received on the ACK topic, \<open>NotifyACK\<close> is called with the sender's
  public key and the decoded ack, under a \<open>go\<close> statement, exactly when the node is the
  leader, the message is not its own, the payload decodes and the sender's public key can
  be derived. Otherwise the receive loop does nothing with the message. The receive task
  does this for each message in turn.
\<close>

theorem ackRecvMsg_delivery:
  "(Go (NotifyACK senderPubKey ack) \<in> set (ackRecvMsg T me n ackMsg) \<longleftrightarrow>
      Role (ce n) = RoleLeader \<and> From ackMsg \<noteq> me \<and>
      AckRes_UnmarshalBinary T (Data ackMsg) = Some ack \<and>
      PubKeyFromPeerID T (From ackMsg) = Some senderPubKey) \<and>
   (ackRecvMsg T me n ackMsg = [] \<or>
    (\<exists>pk a. ackRecvMsg T me n ackMsg = [Go (NotifyACK pk a)])) \<and>
   ackRecvTask T me (map (\<lambda>(n, m). Next_msg n m) arrivals) =
     concat (map (\<lambda>(n, m). ackRecvMsg T me n m) arrivals)"
proof (intro conjI)
  show "Go (NotifyACK senderPubKey ack) \<in> set (ackRecvMsg T me n ackMsg) \<longleftrightarrow>
      Role (ce n) = RoleLeader \<and> From ackMsg \<noteq> me \<and>
      AckRes_UnmarshalBinary T (Data ackMsg) = Some ack \<and>
      PubKeyFromPeerID T (From ackMsg) = Some senderPubKey"
    by (auto simp: ackRecvMsg_def Let_def split: option.splits)
  show "ackRecvMsg T me n ackMsg = [] \<or>
    (\<exists>pk a. ackRecvMsg T me n ackMsg = [Go (NotifyACK pk a)])"
    by (simp add: ackRecvMsg_def Let_def split: option.splits)
  show "ackRecvTask T me (map (\<lambda>(n, m). Next_msg n m) arrivals) =
     concat (map (\<lambda>(n, m). ackRecvMsg T me n m) arrivals)"
    by (rule ackRecvTask_msgs)
qed

theorem ackRecvMsg_delivery_witness:
  "Go (NotifyACK [2] [7, 7]) \<in>
     set (ackRecvMsg sample_types [1] (sample_node RoleLeader) \<lparr>From = [2], Data = [7, 7]\<rparr>) \<and>
   ackRecvMsg sample_types [1] (sample_node RoleValidator) \<lparr>From = [2], Data = [7, 7]\<rparr> = [] \<and>
   ackRecvMsg sample_types [1] (sample_node RoleLeader) \<lparr>From = [1], Data = [7, 7]\<rparr> = []"
proof -
  have 1: "Go (NotifyACK [2] [7, 7]) \<in>
     set (ackRecvMsg sample_types [1] (sample_node RoleLeader) \<lparr>From = [2], Data = [7, 7]\<rparr>)"
    using ackRecvMsg_delivery [of "[2]" "[7, 7]" sample_types "[1]" "sample_node RoleLeader"
        "\<lparr>From = [2], Data = [7, 7]\<rparr>"]
    by (simp add: sample_types_def sample_node_def sample_engine_def)
  have 2: "ackRecvMsg sample_types [1] (sample_node RoleValidator) \<lparr>From = [2], Data = [7, 7]\<rparr> = []"
    by (simp add: ackRecvMsg_def sample_node_def sample_engine_def)
  have 3: "ackRecvMsg sample_types [1] (sample_node RoleLeader) \<lparr>From = [1], Data = [7, 7]\<rparr> = []"
    by (simp add: ackRecvMsg_def sample_node_def sample_engine_def)
  from 1 2 3 show ?thesis by simp
qed

lemma discReqRecvTask_msgs:
  "discReqRecvTask me (map (\<lambda>(n, m). Next_msg n m) arrivals) =
     concat (map (\<lambda>(n, m). discReqRecvMsg me n m) arrivals)"
  by (induction arrivals) auto

text \<open>
  C8. For a discovery request that is not the node's own, the receive loop takes the best
  height from \<open>bki.Best()\<close> and puts a response carrying it on the channel \<open>discResp\<close>,
  whatever the consensus engine and its role are; a request of the node's own is ignored.
  The receive task does this for each message in turn.
\<close>

theorem discReqRecvMsg_responds:
  "(From discMsg \<noteq> me \<longrightarrow>
      discReqRecvMsg me (n\<lparr>ce := engine\<rparr>) discMsg
        = [Send_discResp \<lparr>BestHeight = fst (bki_Best n)\<rparr>]) \<and>
   (From discMsg = me \<longrightarrow> discReqRecvMsg me (n\<lparr>ce := engine\<rparr>) discMsg = []) \<and>
   discReqRecvTask me (map (\<lambda>(n, m). Next_msg n m) arrivals) =
     concat (map (\<lambda>(n, m). discReqRecvMsg me n m) arrivals)"
  by (auto simp: discReqRecvMsg_def sendDiscoveryResponse_def discReqRecvTask_msgs
      split: prod.splits)

theorem discReqRecvMsg_responds_witness:
  "discReqRecvMsg [1] ((sample_node RoleLeader)\<lparr>ce := sample_engine RoleSentry\<rparr>)
     \<lparr>From = [2], Data = []\<rparr> = [Send_discResp \<lparr>BestHeight = 42\<rparr> :: byte list action] \<and>
   discReqRecvMsg [1] ((sample_node RoleLeader)\<lparr>ce := sample_engine RoleSentry\<rparr>)
     \<lparr>From = [1], Data = []\<rparr> = ([] :: byte list action list)"
  using discReqRecvMsg_responds [where discMsg = "\<lparr>From = [2], Data = []\<rparr>" and me = "[1]"
      and n = "sample_node RoleLeader" and engine = "sample_engine RoleSentry"
      and arrivals = "[]"]
    discReqRecvMsg_responds [where discMsg = "\<lparr>From = [1], Data = []\<rparr>" and me = "[1]"
      and n = "sample_node RoleLeader" and engine = "sample_engine RoleSentry"
      and arrivals = "[]"]
  by (simp add: sample_node_def)

lemma discRespRecvMsg_iff:
  "Go (NotifyDiscoveryMessage senderPubKey bestHeight) \<in> set (discRespRecvMsg T me n msg) \<longleftrightarrow>
     Role (ce n) = RoleLeader \<and> From msg \<noteq> me \<and>
     (\<exists>dm. DiscRes_UnmarshalBinary T (Data msg) = Some dm \<and> BestHeight dm = bestHeight) \<and>
     PubKeyFromPeerID T (From msg) = Some senderPubKey"
proof (cases "DiscRes_UnmarshalBinary T (Data msg)")
  case None
  then show ?thesis
    by (simp add: discRespRecvMsg_def)
next
  case (Some dm)
  then show ?thesis
    by (auto simp: discRespRecvMsg_def Let_def split: option.splits)
qed

lemma discRespRecvMsg_shape:
  "discRespRecvMsg T me n msg = [] \<or>
   (\<exists>pk h. discRespRecvMsg T me n msg = [Go (NotifyDiscoveryMessage pk h)])"
  by (simp add: discRespRecvMsg_def Let_def split: option.splits)

lemma ackRecvMsg_iff:
  "Go (NotifyACK senderPubKey ack) \<in> set (ackRecvMsg T me n msg) \<longleftrightarrow>
     Role (ce n) = RoleLeader \<and> From msg \<noteq> me \<and>
     AckRes_UnmarshalBinary T (Data msg) = Some ack \<and>
     PubKeyFromPeerID T (From msg) = Some senderPubKey"
  by (auto simp: ackRecvMsg_def Let_def split: option.splits)

lemma ackRecvMsg_shape:
  "ackRecvMsg T me n msg = [] \<or> (\<exists>pk a. ackRecvMsg T me n msg = [Go (NotifyACK pk a)])"
  by (simp add: ackRecvMsg_def Let_def split: option.splits)

text \<open>
  C10. For a reset message that is not the node's own, that decodes and whose sender's
  public key can be derived, the receive loop calls \<open>NotifyResetState\<close> itself, not under
  a \<open>go\<close> statement, whatever the consensus engine and its role are. The receive loops for
  acks and for discovery responses do nothing unless the node is the leader, and what they
  do is a call under a \<open>go\<close> statement: each delivers its notification, \<open>NotifyACK\<close> or
  \<open>NotifyDiscoveryMessage\<close>, as a single \<open>go\<close> call exactly when the node is the leader,
  the message is not its own, the payload decodes and the sender's public key can be
  derived, and does nothing with the message otherwise.
\<close>

theorem resetRecvMsg_delivery:
  assumes "From resetMsg \<noteq> me"
    and "ConsensusReset_UnmarshalBinary T (Data resetMsg) = Some reset"
    and "PubKeyFromPeerID T (From resetMsg) = Some senderPubKey"
  shows "resetRecvMsg T me (n\<lparr>ce := engine\<rparr>) resetMsg
           = [Call (NotifyResetState (ToHeight reset) (TxIDs reset) senderPubKey)] \<and>
         (Role (ce n) \<noteq> RoleLeader \<longrightarrow>
            ackRecvMsg T me n msg = [] \<and> discRespRecvMsg T me n msg = []) \<and>
         (\<forall>a \<in> set (ackRecvMsg T me n msg @ discRespRecvMsg T me n msg). \<exists>c. a = Go c) \<and>
         (Go (NotifyACK pk ack) \<in> set (ackRecvMsg T me n msg) \<longleftrightarrow>
            Role (ce n) = RoleLeader \<and> From msg \<noteq> me \<and>
            AckRes_UnmarshalBinary T (Data msg) = Some ack \<and>
            PubKeyFromPeerID T (From msg) = Some pk) \<and>
         (ackRecvMsg T me n msg = [] \<or>
            (\<exists>pk' a. ackRecvMsg T me n msg = [Go (NotifyACK pk' a)])) \<and>
         (Go (NotifyDiscoveryMessage pk bestHeight) \<in> set (discRespRecvMsg T me n msg) \<longleftrightarrow>
            Role (ce n) = RoleLeader \<and> From msg \<noteq> me \<and>
            (\<exists>dm. DiscRes_UnmarshalBinary T (Data msg) = Some dm \<and> BestHeight dm = bestHeight) \<and>
            PubKeyFromPeerID T (From msg) = Some pk) \<and>
         (discRespRecvMsg T me n msg = [] \<or>
            (\<exists>pk' h. discRespRecvMsg T me n msg = [Go (NotifyDiscoveryMessage pk' h)]))"
proof -
  have reset: "resetRecvMsg T me (n\<lparr>ce := engine\<rparr>) resetMsg
           = [Call (NotifyResetState (ToHeight reset) (TxIDs reset) senderPubKey)]"
    using assms by (simp add: resetRecvMsg_def Let_def)
  have follower: "Role (ce n) \<noteq> RoleLeader \<longrightarrow>
            ackRecvMsg T me n msg = [] \<and> discRespRecvMsg T me n msg = []"
    by (simp add: ackRecvMsg_def discRespRecvMsg_def)
  have async: "\<forall>a \<in> set (ackRecvMsg T me n msg @ discRespRecvMsg T me n msg). \<exists>c. a = Go c"
    using ackRecvMsg_shape [of T me n msg] discRespRecvMsg_shape [of T me n msg] by auto
  show ?thesis
    using reset follower async ackRecvMsg_iff [of pk ack T me n msg] ackRecvMsg_shape [of T me n msg]
      discRespRecvMsg_iff [of pk bestHeight T me n msg] discRespRecvMsg_shape [of T me n msg]
    by blast
qed

theorem resetRecvMsg_delivery_witness:
  "resetRecvMsg sample_types [1] ((sample_node RoleLeader)\<lparr>ce := sample_engine RoleSentry\<rparr>)
     \<lparr>From = [2], Data = PutUint64 9\<rparr> = [Call (NotifyResetState 9 [] [2])] \<and>
   ackRecvMsg sample_types [1] (sample_node RoleSentry) \<lparr>From = [2], Data = PutUint64 9\<rparr> = [] \<and>
   discRespRecvMsg sample_types [1] (sample_node RoleSentry) \<lparr>From = [2], Data = PutUint64 9\<rparr>
     = [] \<and>
   ackRecvMsg sample_types [1] (sample_node RoleLeader) \<lparr>From = [2], Data = PutUint64 9\<rparr>
     = [Go (NotifyACK [2] (PutUint64 9))] \<and>
   discRespRecvMsg sample_types [1] (sample_node RoleLeader) \<lparr>From = [2], Data = PutUint64 9\<rparr>
     = [Go (NotifyDiscoveryMessage [2] 9)]"
proof -
  let ?m = "\<lparr>From = [2], Data = PutUint64 9\<rparr>"
  have h1: "From ?m \<noteq> [1 :: byte]"
    by simp
  have h2: "ConsensusReset_UnmarshalBinary sample_types (Data ?m)
              = Some \<lparr>ToHeight = 9, TxIDs = []\<rparr>"
    using Uint64_PutUint64 [of 9 "[]"] by (simp add: sample_types_def length_PutUint64)
  have h3: "PubKeyFromPeerID sample_types (From ?m) = Some [2]"
    by (simp add: sample_types_def)
  have ne: "PutUint64 9 \<noteq> []"
    using length_PutUint64 [of 9] by auto
  have h4: "AckRes_UnmarshalBinary sample_types (Data ?m) = Some (PutUint64 9)"
    using ne by (simp add: sample_types_def)
  have h5: "\<exists>dm. DiscRes_UnmarshalBinary sample_types (Data ?m) = Some dm \<and> BestHeight dm = 9"
    using Uint64_PutUint64 [of 9 "[]"] by (simp add: sample_types_def length_PutUint64)
  have sentry: "Role (ce (sample_node RoleSentry)) \<noteq> RoleLeader"
    by (simp add: sample_node_def sample_engine_def)
  have leader: "Role (ce (sample_node RoleLeader)) = RoleLeader"
    by (simp add: sample_node_def sample_engine_def)
  note at_sentry = resetRecvMsg_delivery [OF h1 h2 h3, where n = "sample_node RoleSentry"
      and engine = "sample_engine RoleSentry" and msg = ?m and pk = "[2]" and ack = "PutUint64 9"
      and bestHeight = 9]
  note at_leader = resetRecvMsg_delivery [OF h1 h2 h3, where n = "sample_node RoleLeader"
      and engine = "sample_engine RoleSentry" and msg = ?m and pk = "[2]" and ack = "PutUint64 9"
      and bestHeight = 9]
  have r1: "resetRecvMsg sample_types [1] ((sample_node RoleLeader)\<lparr>ce := sample_engine RoleSentry\<rparr>)
     ?m = [Call (NotifyResetState 9 [] [2])]"
    using at_leader by simp
  have r2: "ackRecvMsg sample_types [1] (sample_node RoleSentry) ?m = [] \<and>
            discRespRecvMsg sample_types [1] (sample_node RoleSentry) ?m = []"
    using at_sentry sentry by blast
  have "Go (NotifyACK [2] (PutUint64 9)) \<in> set (ackRecvMsg sample_types [1] (sample_node RoleLeader) ?m)"
    using at_leader leader h1 h3 h4 by blast
  moreover have "ackRecvMsg sample_types [1] (sample_node RoleLeader) ?m = [] \<or>
      (\<exists>pk' a. ackRecvMsg sample_types [1] (sample_node RoleLeader) ?m = [Go (NotifyACK pk' a)])"
    using at_leader by blast
  ultimately have r3: "ackRecvMsg sample_types [1] (sample_node RoleLeader) ?m
      = [Go (NotifyACK [2] (PutUint64 9))]"
    by auto
  have "Go (NotifyDiscoveryMessage [2] 9) \<in>
      set (discRespRecvMsg sample_types [1] (sample_node RoleLeader) ?m)"
    using at_leader leader h1 h3 h5 by blast
  moreover have "discRespRecvMsg sample_types [1] (sample_node RoleLeader) ?m = [] \<or>
      (\<exists>pk' h. discRespRecvMsg sample_types [1] (sample_node RoleLeader) ?m
         = [Go (NotifyDiscoveryMessage pk' h)])"
    using at_leader by blast
  ultimately have r4: "discRespRecvMsg sample_types [1] (sample_node RoleLeader) ?m
      = [Go (NotifyDiscoveryMessage [2] 9)]"
    by auto
  show ?thesis
    using r1 r2 r3 r4 by simp
qed

section \<open>The Merkle root\<close>

lemma pair_level_nth:
  "i < length (pair_level H leaves) \<Longrightarrow>
   pair_level H leaves ! i = H (leaves ! (2 * i) @ leaves ! min (2 * i + 1) (length leaves - 1))"
proof (induction H leaves arbitrary: i rule: pair_level.induct)
  case (1 H)
  then show ?case by simp
next
  case (2 H x)
  then show ?case by simp
next
  case (3 H x y xs)
  show ?case
  proof (cases i)
    case 0
    then show ?thesis by simp
  next
    case (Suc j)
    with "3.prems" have j: "j < length (pair_level H xs)" by simp
    then have ne: "xs \<noteq> []" by (cases xs) auto
    have m: "min (2 * i + 1) (length (x # y # xs) - 1) = Suc (Suc (min (2 * j + 1) (length xs - 1)))"
      using ne Suc by (cases xs) auto
    have lhs: "pair_level H (x # y # xs) ! i = pair_level H xs ! j"
      using Suc by simp
    have a: "(x # y # xs) ! (2 * i) = xs ! (2 * j)"
      using Suc by simp
    have b: "(x # y # xs) ! min (2 * i + 1) (length (x # y # xs) - 1)
             = xs ! min (2 * j + 1) (length xs - 1)"
      by (simp only: m nth_Cons_Suc)
    show ?thesis
      using "3.IH" [OF j] by (simp only: lhs a b)
  qed
qed

lemma CalcMerkleRoot_step:
  "2 \<le> length leaves \<Longrightarrow> CalcMerkleRoot H leaves = CalcMerkleRoot H (pair_level H leaves)"
proof (cases leaves)
  case Nil
  assume "2 \<le> length leaves"
  with Nil show ?thesis by simp
next
  case (Cons x xs)
  assume "2 \<le> length leaves"
  with Cons obtain y ys where "xs = y # ys" by (cases xs) auto
  with Cons show ?thesis by simp
qed

lemma wf_pair_level:
  "(\<And>b. wf_hash (H b)) \<Longrightarrow> \<forall>l \<in> set (pair_level H leaves). wf_hash l"
  by (induction H leaves rule: pair_level.induct) auto

lemma wf_CalcMerkleRoot:
  "(\<And>b. wf_hash (H b)) \<Longrightarrow> \<forall>l \<in> set leaves. wf_hash l \<Longrightarrow> wf_hash (CalcMerkleRoot H leaves)"
proof (induction H leaves rule: CalcMerkleRoot.induct)
  case (1 H)
  then show ?case by (simp add: wf_hash_def zero_hash_def)
next
  case (2 H x)
  then show ?case by simp
next
  case (3 H x y xs)
  show ?case
    using "3.IH" [OF "3.prems"(1)] wf_pair_level [of H "x # y # xs", OF "3.prems"(1)]
    by simp
qed

text \<open>
  C5. \<open>CalcMerkleRoot\<close> gives the zero hash for no leaf and the leaf itself for one leaf.
  For two leaves or more it is the root of the next level, which has half as many nodes,
  rounded up; node \<open>i\<close> of the next level is the hash of leaf \<open>2i\<close> followed by leaf
  \<open>2i + 1\<close>, or by leaf \<open>2i\<close> again when it is the last one of an odd level. With 32-byte
  leaves each hashed string has 64 bytes, and with a hash function that returns 32 bytes
  the root has 32 bytes. The roots that the tests "two leaves" and "five leaves" expect
  are the ones computed.
\<close>

theorem CalcMerkleRoot_reference:
  "CalcMerkleRoot H [] = zero_hash \<and>
   CalcMerkleRoot H [x] = x \<and>
   (2 \<le> length leaves \<longrightarrow>
      CalcMerkleRoot H leaves = CalcMerkleRoot H (pair_level H leaves)) \<and>
   length (pair_level H leaves) = (length leaves + 1) div 2 \<and>
   (\<forall>i < length (pair_level H leaves).
      pair_level H leaves ! i =
        H (leaves ! (2 * i) @ leaves ! min (2 * i + 1) (length leaves - 1)) \<and>
      ((\<forall>l \<in> set leaves. wf_hash l) \<longrightarrow>
        length (leaves ! (2 * i) @ leaves ! min (2 * i + 1) (length leaves - 1)) = 2 * HashLen)) \<and>
   ((\<forall>b. wf_hash (H b)) \<and> (\<forall>l \<in> set leaves. wf_hash l) \<longrightarrow>
      wf_hash (CalcMerkleRoot H leaves)) \<and>
   CalcMerkleRoot H [l1, l2] = H (l1 @ l2) \<and>
   CalcMerkleRoot H [l0, l1, l2, l3, l4] =
     H (H (H (l0 @ l1) @ H (l2 @ l3)) @ H (H (l4 @ l4) @ H (l4 @ l4)))"
proof -
  have idx: "2 * i < length leaves \<and> min (2 * i + 1) (length leaves - 1) < length leaves"
    if "i < length (pair_level H leaves)" for i
    using that by (auto simp: length_pair_level)
  have len: "length (leaves ! (2 * i) @ leaves ! min (2 * i + 1) (length leaves - 1)) = 2 * HashLen"
    if "i < length (pair_level H leaves)" and "\<forall>l \<in> set leaves. wf_hash l" for i
    using idx [OF that(1)] that(2) by (simp add: wf_hash_def)
  show ?thesis
    using CalcMerkleRoot_step [of leaves H] length_pair_level [of H leaves]
      pair_level_nth [of _ H leaves] len wf_CalcMerkleRoot [of H leaves]
    by simp
qed

lemma wf_sample_HashBytes: "wf_hash (sample_HashBytes b)"
  by (simp add: sample_HashBytes_def wf_hash_def)

theorem CalcMerkleRoot_reference_witness:
  "CalcMerkleRoot sample_HashBytes [replicate 32 1, replicate 32 2, replicate 32 3]
     = CalcMerkleRoot sample_HashBytes
         (pair_level sample_HashBytes [replicate 32 1, replicate 32 2, replicate 32 3]) \<and>
   pair_level sample_HashBytes [replicate 32 1, replicate 32 2, replicate 32 3] ! 1
     = sample_HashBytes (replicate 32 3 @ replicate 32 3) \<and>
   length (replicate 32 (3 :: byte) @ replicate 32 3) = 2 * HashLen \<and>
   wf_hash (CalcMerkleRoot sample_HashBytes [replicate 32 1, replicate 32 2, replicate 32 3])"
proof -
  let ?leaves = "[replicate 32 1, replicate 32 2, replicate 32 (3 :: byte)]"
  note ref = CalcMerkleRoot_reference [where H = sample_HashBytes and leaves = ?leaves]
  have two: "2 \<le> length ?leaves"
    by simp
  have wf: "\<forall>l \<in> set ?leaves. wf_hash l"
    by (simp add: wf_hash_def HashLen_def)
  have one: "1 < length (pair_level sample_HashBytes ?leaves)"
    by simp
  have step: "CalcMerkleRoot sample_HashBytes ?leaves
                = CalcMerkleRoot sample_HashBytes (pair_level sample_HashBytes ?leaves)"
    using ref two by blast
  have node: "pair_level sample_HashBytes ?leaves ! 1 =
        sample_HashBytes (?leaves ! (2 * 1) @ ?leaves ! min (2 * 1 + 1) (length ?leaves - 1)) \<and>
        length (?leaves ! (2 * 1) @ ?leaves ! min (2 * 1 + 1) (length ?leaves - 1)) = 2 * HashLen"
    using ref one wf by blast
  have root: "wf_hash (CalcMerkleRoot sample_HashBytes ?leaves)"
    using ref wf wf_sample_HashBytes by blast
  show ?thesis
    using step node root by (simp add: HashLen_def)
qed

section \<open>Signing and verifying a vote\<close>

text \<open>
  C6, as amended. With a signer whose signatures verify under its own public key,
  \<open>SignVote\<close> of a positive vote without an app hash is an error whatever the key, nil
  included; with an app hash and a key that is not nil it succeeds, and the vote with that
  signature and status \<open>Agree\<close> passes \<open>Verify\<close> for the same block and app hash.
\<close>

theorem SignVote_positive_vote:
  assumes "\<And>m. VerifySignature C (Type C k) (Public C k) m (Sign C k m)"
  shows "(\<forall>key. isl (SignVote C blkID True None key)) \<and>
         (\<exists>sig. SignVote C blkID True (Some appHash) (Some k) = Inr sig \<and>
            Verify C \<lparr>Signature = sig, AckStatus = AckStatusAgree, AppHash = None\<rparr>
              blkID appHash = None)"
  using assms
  by (auto simp: SignVote_def VoteDigest_def Verify_def split: option.splits)

theorem SignVote_positive_vote_witness:
  "(\<forall>key. isl (SignVote sample_crypto [1] True None key)) \<and>
   (\<exists>sig. SignVote sample_crypto [1] True (Some [2]) (Some 5) = Inr sig \<and>
      Verify sample_crypto \<lparr>Signature = sig, AckStatus = AckStatusAgree, AppHash = None\<rparr>
        [1] [2] = None)"
proof -
  have h: "\<And>m. VerifySignature sample_crypto (Type sample_crypto 5) (Public sample_crypto 5) m
                 (Sign sample_crypto 5 m)"
    by (simp add: sample_crypto_def)
  show ?thesis
    using SignVote_positive_vote [of sample_crypto 5, OF h] by simp
qed

text \<open>
  C6, as stated, fails for the nil key: \<open>SignVote\<close> of a positive vote with an app hash
  returns an error, as the case "SignVote with nil key" of \<open>TestSignAndVerifyVote\<close> requires.
\<close>

theorem SignVote_nil_key_counterexample:
  "SignVote sample_crypto zero_hash True (Some zero_hash) None = Inl ErrNilKey"
  by (simp add: SignVote_def)


end
